theory Spec2Isabelle
  imports Main
begin

section \<open>Python strings and exceptions\<close>

text \<open>
  A Python \<^verbatim>\<open>str\<close> is modelled as a \<^typ>\<open>string\<close>, one \<^typ>\<open>char\<close> per code point;
  the model therefore covers the code points below 256. The exceptions are the
  built-in ones the interpreter raises in the modelled functions: no function of
  \<^verbatim>\<open>parsers.py\<close> or \<^verbatim>\<open>manager.py\<close> modelled here has a \<^verbatim>\<open>raise\<close> or a
  \<^verbatim>\<open>try\<close> of its own. \<^verbatim>\<open>KeyError\<close> carries the missing key, as in Python; the others
  carry an interpreter message that does not depend on the data.
\<close>

datatype py_error =
  IndexError | ValueError | KeyError string | UnboundLocalError | AttributeError

text \<open>\<^verbatim>\<open>str.isspace\<close> on one code point below 256: the characters that \<^verbatim>\<open>str.strip()\<close>,
  \<^verbatim>\<open>str.split()\<close> and the pattern \<^verbatim>\<open>\s\<close> treat as whitespace.\<close>

definition is_space :: "char \<Rightarrow> bool" where
  "is_space c = (let n = (of_char c :: nat) in
     (9 \<le> n \<and> n \<le> 13) \<or> (28 \<le> n \<and> n \<le> 32) \<or> n = 133 \<or> n = 160)"

text \<open>\<^verbatim>\<open>s.strip()\<close> and \<^verbatim>\<open>s.strip(chars)\<close>.\<close>

definition strip_where :: "(char \<Rightarrow> bool) \<Rightarrow> string \<Rightarrow> string" where
  "strip_where P s = rev (dropWhile P (rev (dropWhile P s)))"

definition strip :: "string \<Rightarrow> string" where
  "strip s = strip_where is_space s"

definition strip_chars :: "string \<Rightarrow> string \<Rightarrow> string" where
  "strip_chars chars s = strip_where (\<lambda>c. c \<in> set chars) s"

text \<open>\<^verbatim>\<open>s.split(' ', 1)\<close>: at most one split, at the first space character.\<close>

definition split_space_once :: "string \<Rightarrow> string list" where
  "split_space_once s =
     (if CHR '' '' \<in> set s
      then [takeWhile (\<lambda>c. c \<noteq> CHR '' '') s, tl (dropWhile (\<lambda>c. c \<noteq> CHR '' '') s)]
      else [s])"

text \<open>\<^verbatim>\<open>s.split(sep)\<close> for a one-character separator: a split at every occurrence; the
  first argument is the field read so far.\<close>

fun split_sep :: "char \<Rightarrow> string \<Rightarrow> string \<Rightarrow> string list" where
  "split_sep sep cur [] = [cur]"
| "split_sep sep cur (c # cs) =
     (if c = sep then cur # split_sep sep [] cs else split_sep sep (cur @ [c]) cs)"

text \<open>\<^verbatim>\<open>s.split()\<close>: the maximal runs of non-whitespace characters.\<close>

fun split_whitespace :: "string \<Rightarrow> string \<Rightarrow> string list" where
  "split_whitespace cur [] = (if cur = [] then [] else [cur])"
| "split_whitespace cur (c # cs) =
     (if is_space c
      then (if cur = [] then split_whitespace [] cs else cur # split_whitespace [] cs)
      else split_whitespace (cur @ [c]) cs)"

text \<open>\<^verbatim>\<open>re.split(r'\s{2,}', s)\<close>: a split at every maximal run of two or more whitespace
  characters; a single whitespace character stays in its field.\<close>

function re_split_spaces :: "string \<Rightarrow> string \<Rightarrow> string list" where
  "re_split_spaces cur [] = [cur]"
| "re_split_spaces cur [c] = [cur @ [c]]"
| "re_split_spaces cur (c # d # cs) =
     (if is_space c \<and> is_space d
      then cur # re_split_spaces [] (dropWhile is_space cs)
      else re_split_spaces (cur @ [c]) (d # cs))"
  by pat_completeness auto
termination
  by (relation "measure (\<lambda>(cur, s). length s)")
     (auto simp: le_imp_less_Suc length_dropWhile_le less_Suc_eq_le le_SucI)

text \<open>\<^verbatim>\<open>xs[i]\<close> on a list or tuple.\<close>

definition index :: "'a list \<Rightarrow> nat \<Rightarrow> py_error + 'a" where
  "index xs i = (if i < length xs then Inr (xs ! i) else Inl IndexError)"

section \<open>The line parsers of parsers.py\<close>

definition parse_entry_line :: "string \<Rightarrow> string list" where
  "parse_entry_line line = map (strip_chars '' '') (drop 1 (split_whitespace [] line))"

definition remove_first_word :: "string \<Rightarrow> py_error + string" where
  "remove_first_word s =
     (case index (split_space_once s) 1 of Inl e \<Rightarrow> Inl e | Inr w \<Rightarrow> Inr (strip w))"

definition get_first_word :: "string \<Rightarrow> string" where
  "get_first_word s = hd (split_space_once s)"

definition parse_pathway_line :: "string \<Rightarrow> py_error + string list" where
  "parse_pathway_line line =
     (case remove_first_word line of
        Inl e \<Rightarrow> Inl e
      | Inr line' \<Rightarrow> Inr (map (strip_chars '' '') (re_split_spaces [] line')))"

text \<open>\<^verbatim>\<open>column, link_id = line.split(":")\<close> unpacks a list of exactly two fields and raises
  \<^verbatim>\<open>ValueError\<close> on any other length.\<close>

definition parse_link_line :: "string \<Rightarrow> py_error + (string \<times> string)" where
  "parse_link_line line =
     (case remove_first_word line of
        Inl e \<Rightarrow> Inl e
      | Inr line' \<Rightarrow>
          (case split_sep (CHR '':'') [] line' of
             [column, link_id] \<Rightarrow> Inr (strip column, strip link_id)
           | _ \<Rightarrow> Inl ValueError))"

section \<open>parse_description\<close>

text \<open>
  The dictionary \<^verbatim>\<open>description\<close> only ever receives the four keys below, each with
  values of one shape: a tuple of strings under \<^verbatim>\<open>ENTRY\<close>, a string under
  \<^verbatim>\<open>ENTRY_NAME\<close>, a list of tuples of strings under \<^verbatim>\<open>PATHWAY\<close> and a list of pairs
  under \<^verbatim>\<open>DBLINKS\<close>. A field is \<open>None\<close> while its key is not in the dictionary.
\<close>

record description =
  ENTRY :: "string list option"
  ENTRY_NAME :: "string option"
  PATHWAY :: "string list list option"
  DBLINKS :: "(string \<times> string) list option"

definition empty_description :: description where
  "empty_description = \<lparr>ENTRY = None, ENTRY_NAME = None, PATHWAY = None, DBLINKS = None\<rparr>"

text \<open>The local variable \<^verbatim>\<open>keyword\<close> is unbound (\<open>None\<close>) until a line that does not start
  with a space character has been read.\<close>

record parse_state =
  keyword :: "string option"
  descr :: description

definition init_state :: parse_state where
  "init_state = \<lparr>keyword = None, descr = empty_description\<rparr>"

text \<open>\<^verbatim>\<open>line.startswith(' ')\<close>.\<close>

definition starts_with_space :: "string \<Rightarrow> bool" where
  "starts_with_space line = (case line of [] \<Rightarrow> False | c # _ \<Rightarrow> c = CHR '' '')"

text \<open>The value of \<^verbatim>\<open>keyword\<close> after the first \<^verbatim>\<open>if\<close> of the loop body.\<close>

definition line_keyword :: "parse_state \<Rightarrow> string \<Rightarrow> string option" where
  "line_keyword st line =
     (if \<not> starts_with_space line then Some (get_first_word line) else keyword st)"

text \<open>One iteration of the loop of \<^verbatim>\<open>parse_description\<close>. Reading the unbound
  \<^verbatim>\<open>keyword\<close> raises \<^verbatim>\<open>UnboundLocalError\<close>.\<close>

definition parse_line :: "parse_state \<Rightarrow> string \<Rightarrow> py_error + parse_state" where
  "parse_line st line =
     (case line_keyword st line of
        None \<Rightarrow> Inl UnboundLocalError
      | Some kw \<Rightarrow>
          (let st = st\<lparr>keyword := Some kw\<rparr>; d = descr st in
           if kw = ''ENTRY'' then
             Inr (st\<lparr>descr := d\<lparr>ENTRY := Some (parse_entry_line line)\<rparr>\<rparr>)
           else if kw = ''NAME'' then
             (let entry_name = parse_entry_line line in
              if entry_name \<noteq> []
              then Inr (st\<lparr>descr := d\<lparr>ENTRY_NAME := Some (strip_chars '';'' (hd entry_name))\<rparr>\<rparr>)
              else Inr st)
           else if kw = ''PATHWAY'' then
             (case parse_pathway_line line of
                Inl e \<Rightarrow> Inl e
              | Inr t \<Rightarrow>
                  (case PATHWAY d of
                     None \<Rightarrow> Inr (st\<lparr>descr := d\<lparr>PATHWAY := Some [t]\<rparr>\<rparr>)
                   | Some ts \<Rightarrow> Inr (st\<lparr>descr := d\<lparr>PATHWAY := Some (ts @ [t])\<rparr>\<rparr>)))
           else if kw = ''DBLINKS'' then
             (case parse_link_line line of
                Inl e \<Rightarrow> Inl e
              | Inr p \<Rightarrow>
                  (case DBLINKS d of
                     None \<Rightarrow> Inr (st\<lparr>descr := d\<lparr>DBLINKS := Some [p]\<rparr>\<rparr>)
                   | Some ps \<Rightarrow> Inr (st\<lparr>descr := d\<lparr>DBLINKS := Some (ps @ [p])\<rparr>\<rparr>)))
           else Inr st))"

text \<open>The loop over the lines; an exception ends it.\<close>

fun parse_lines :: "parse_state \<Rightarrow> string list \<Rightarrow> py_error + parse_state" where
  "parse_lines st [] = Inr st"
| "parse_lines st (line # rest) =
     (case parse_line st line of Inl e \<Rightarrow> Inl e | Inr st' \<Rightarrow> parse_lines st' rest)"

definition parse_description :: "string list \<Rightarrow> py_error + description" where
  "parse_description lines =
     (case parse_lines init_state lines of Inl e \<Rightarrow> Inl e | Inr st \<Rightarrow> Inr (descr st))"

section \<open>The projection of a parsed record\<close>

text \<open>
  What \<^verbatim>\<open>description[description_property]\<close> returns: the value stored under one of the
  four keys, with its shape. Any other key is absent.
\<close>

datatype section_value =
  Tuple "string list" | Str string | TupleList "string list list" | PairList "(string \<times> string) list"

definition description_get :: "description \<Rightarrow> string \<Rightarrow> section_value option" where
  "description_get d key =
     (if key = ''ENTRY'' then map_option Tuple (ENTRY d)
      else if key = ''ENTRY_NAME'' then map_option Str (ENTRY_NAME d)
      else if key = ''PATHWAY'' then map_option TupleList (PATHWAY d)
      else if key = ''DBLINKS'' then map_option PairList (DBLINKS d)
      else None)"

text \<open>
  The elements that \<^verbatim>\<open>for pair in description[description_property]\<close> visits, each as the
  sequence that \<^verbatim>\<open>pair[0]\<close>, \<^verbatim>\<open>pair[1]\<close> index: a tuple is its components, a string is
  its characters (each a string of length one).
\<close>

fun section_items :: "section_value \<Rightarrow> string list list" where
  "section_items (Tuple xs) = map (\<lambda>x. map (\<lambda>c. [c]) x) xs"
| "section_items (Str s) = map (\<lambda>c. [[c]]) s"
| "section_items (TupleList ts) = ts"
| "section_items (PairList ps) = map (\<lambda>(a, b). [a, b]) ps"

text \<open>
  A \<^verbatim>\<open>dict\<close> built by a comprehension, as the list of its items in insertion order:
  storing under a key that is present replaces the value in place.
\<close>

type_synonym ('k, 'v) dict = "('k \<times> 'v) list"

fun dict_set :: "('k, 'v) dict \<Rightarrow> 'k \<Rightarrow> 'v \<Rightarrow> ('k, 'v) dict" where
  "dict_set [] k v = [(k, v)]"
| "dict_set ((k', v') # d) k v =
     (if k' = k then (k', v) # d else (k', v') # dict_set d k v)"

text \<open>The comprehension of \<^verbatim>\<open>get_description_properties\<close>; the second argument is the
  dictionary built so far.\<close>

fun properties_loop ::
  "string list \<Rightarrow> (string, string) dict \<Rightarrow> string list list \<Rightarrow> py_error + (string, string) dict"
where
  "properties_loop columns acc [] = Inr acc"
| "properties_loop columns acc (pair # rest) =
     (case index pair 0 of
        Inl e \<Rightarrow> Inl e
      | Inr k \<Rightarrow>
          if k \<in> set columns
          then (case index pair 1 of
                  Inl e \<Rightarrow> Inl e
                | Inr v \<Rightarrow> properties_loop columns (dict_set acc k v) rest)
          else properties_loop columns acc rest)"

definition get_description_properties ::
  "description \<Rightarrow> string \<Rightarrow> string list \<Rightarrow> py_error + (string, string) dict"
where
  "get_description_properties d description_property columns =
     (case description_get d description_property of
        None \<Rightarrow> Inl (KeyError description_property)
      | Some sec \<Rightarrow> properties_loop columns [] (section_items sec))"

text \<open>\<^verbatim>\<open>str.lower\<close> on code points below 256: the letters A to Z and the capital letters
  of Latin-1 (192 to 222 without the multiplication sign 215) move up by 32.\<close>

definition lower_char :: "char \<Rightarrow> char" where
  "lower_char c = (let n = (of_char c :: nat) in
     if (65 \<le> n \<and> n \<le> 90) \<or> (192 \<le> n \<and> n \<le> 222 \<and> n \<noteq> 215)
     then char_of (n + 32) else c)"

definition lower :: "string \<Rightarrow> string" where
  "lower s = map lower_char s"

definition kegg_properties_to_models :: "(string, string) dict \<Rightarrow> (string, string) dict" where
  "kegg_properties_to_models kegg_attributes =
     fold (\<lambda>(key, value) acc.
             if length value < 255 then dict_set acc (lower key @ ''_id'') value else acc)
       kegg_attributes []"

text \<open>The constants \<^verbatim>\<open>DBLINKS\<close> and \<^verbatim>\<open>PROTEIN_RESOURCES\<close> of \<^verbatim>\<open>constants.py\<close> are
  parameters.\<close>

definition process_protein_info_to_model ::
  "string \<Rightarrow> string list \<Rightarrow> string list \<Rightarrow> py_error + (string, string) dict"
where
  "process_protein_info_to_model dblinks protein_resources lines =
     (case parse_description lines of
        Inl e \<Rightarrow> Inl e
      | Inr d \<Rightarrow>
          (case get_description_properties d dblinks protein_resources of
             Inl e \<Rightarrow> Inl e
           | Inr protein_as_dict \<Rightarrow> Inr (kegg_properties_to_models protein_as_dict)))"

section \<open>The protein--pathway relation of manager.py\<close>

text \<open>
  A cell of the membership table as \<^verbatim>\<open>get_entity_pathway_df\<close> delivers it. \<^verbatim>\<open>read_csv\<close> is
  called with its default handling of missing values and no column type, so a cell is
  a \<^verbatim>\<open>str\<close> or a number: the float \<^verbatim>\<open>nan\<close> for an empty field or a field such as
  \<^verbatim>\<open>NA\<close>, a number in a column that holds nothing but numbers. A number is given by
  its printed form.
\<close>

datatype cell = Text string | Number string

fun printed :: "cell \<Rightarrow> string" where
  "printed (Text s) = s"
| "printed (Number r) = r"

text \<open>
  The state the loop at the end of \<^verbatim>\<open>_populate_pathway_protein\<close> works on: for each
  \<^verbatim>\<open>Protein\<close> object its \<^verbatim>\<open>pathways\<close>, for each \<^verbatim>\<open>Pathway\<close> object its \<^verbatim>\<open>proteins\<close>, and
  the warnings logged. Protein and pathway objects are values of the types \<open>'prot\<close> and
  \<open>'pw\<close>. Both collections are kept as lists without repetition, in the order of
  insertion.
\<close>

record ('prot, 'pw) relation_index =
  protein_pathways :: "'prot \<Rightarrow> 'pw list"
  pathway_proteins :: "'pw \<Rightarrow> 'prot list"
  warnings :: "string list"

definition empty_index :: "('prot, 'pw) relation_index" where
  "empty_index = \<lparr>protein_pathways = (\<lambda>_. []), pathway_proteins = (\<lambda>_. []), warnings = []\<rparr>"

text \<open>\<^verbatim>\<open>if s.startswith('path:'): s = s[len('path:'):]\<close>\<close>

definition remove_path_prefix :: "string \<Rightarrow> string" where
  "remove_path_prefix s = (if take 5 s = ''path:'' then drop 5 s else s)"

text \<open>Adding a member to a set of members: a member that is present is not added again.\<close>

definition set_add :: "'a list \<Rightarrow> 'a \<Rightarrow> 'a list" where
  "set_add xs x = (if x \<in> set xs then xs else xs @ [x])"

text \<open>Modelled from the spec: the relationship between \<^verbatim>\<open>Protein.pathways\<close> and
  \<^verbatim>\<open>Pathway.proteins\<close>, and with it what \<^verbatim>\<open>protein.pathways.append(pathway)\<close> stores, is
  declared in \<^verbatim>\<open>models.py\<close>, which is not among the sources. The specification has a
  "bidirectional multimap -- pathway id to set of member protein ids, and protein id to
  set of member pathway ids", where "every edge appears in both directions" and
  "membership pairs are deduplicated": the append puts the pathway into the set of the
  protein's pathways and the protein into the set of the pathway's proteins.\<close>

definition relationship_append ::
  "('prot, 'pw) relation_index \<Rightarrow> 'prot \<Rightarrow> 'pw \<Rightarrow> ('prot, 'pw) relation_index"
where
  "relationship_append idx protein pathway =
     idx\<lparr>protein_pathways :=
           (protein_pathways idx)(protein := set_add (protein_pathways idx protein) pathway),
         pathway_proteins :=
           (pathway_proteins idx)(pathway := set_add (pathway_proteins idx pathway) protein)\<rparr>"

text \<open>
  The body of the loop over \<^verbatim>\<open>entity_pathway_df.values\<close>, for one row. A pathway cell
  that is not a \<^verbatim>\<open>str\<close> has no \<^verbatim>\<open>startswith\<close>: \<^verbatim>\<open>AttributeError\<close>. \<^verbatim>\<open>get_pathway_by_id\<close>,
  inherited from \<^verbatim>\<open>CompathManager\<close>, and the dictionary \<^verbatim>\<open>kegg_protein_id_to_protein\<close>,
  filled from what \<^verbatim>\<open>get_entities_lines\<close> of \<^verbatim>\<open>client.py\<close> returns, are parameters;
  indexing the dictionary with a key it does not hold raises \<^verbatim>\<open>KeyError\<close>.
\<close>

definition populate_row ::
  "(string \<Rightarrow> 'pw option) \<Rightarrow> (cell \<Rightarrow> 'prot option) \<Rightarrow> ('prot, 'pw) relation_index \<Rightarrow> cell \<times> cell
     \<Rightarrow> py_error + ('prot, 'pw) relation_index"
where
  "populate_row get_pathway_by_id kegg_protein_id_to_protein idx row =
     (case row of (kegg_protein_id, pathway_cell) \<Rightarrow>
        (case pathway_cell of
           Number _ \<Rightarrow> Inl AttributeError
         | Text s \<Rightarrow>
             (let kegg_pathway_id = remove_path_prefix s in
              case get_pathway_by_id kegg_pathway_id of
                None \<Rightarrow> Inr (idx\<lparr>warnings := warnings idx @ [kegg_pathway_id]\<rparr>)
              | Some pathway \<Rightarrow>
                  (case kegg_protein_id_to_protein kegg_protein_id of
                     None \<Rightarrow> Inl (KeyError (printed kegg_protein_id))
                   | Some protein \<Rightarrow> Inr (relationship_append idx protein pathway)))))"

fun populate_loop ::
  "(string \<Rightarrow> 'pw option) \<Rightarrow> (cell \<Rightarrow> 'prot option) \<Rightarrow> ('prot, 'pw) relation_index
     \<Rightarrow> (cell \<times> cell) list \<Rightarrow> py_error + ('prot, 'pw) relation_index"
where
  "populate_loop get_pathway_by_id kegg_protein_id_to_protein idx [] = Inr idx"
| "populate_loop get_pathway_by_id kegg_protein_id_to_protein idx (row # rest) =
     (case populate_row get_pathway_by_id kegg_protein_id_to_protein idx row of
        Inl e \<Rightarrow> Inl e
      | Inr idx' \<Rightarrow> populate_loop get_pathway_by_id kegg_protein_id_to_protein idx' rest)"

text \<open>\<^verbatim>\<open>Series.unique()\<close>: the distinct values, in the order of their first occurrence.\<close>

definition unique :: "'a list \<Rightarrow> 'a list" where
  "unique xs = rev (remdups (rev xs))"

text \<open>
  \<^verbatim>\<open>_populate_pathway_protein\<close> on the rows of the membership table. The debug message
  of line 195 reads \<^verbatim>\<open>kegg_protein_ids[0]\<close>, which raises \<^verbatim>\<open>IndexError\<close> on an empty
  table. Fetching and parsing the protein descriptions (\<^verbatim>\<open>get_entities_lines\<close> and
  \<^verbatim>\<open>parse_protein_lines\<close> of \<^verbatim>\<open>client.py\<close>) is taken to succeed; its result is the
  dictionary, a parameter.
\<close>

definition populate_pathway_protein ::
  "(string \<Rightarrow> 'pw option) \<Rightarrow> (cell \<Rightarrow> 'prot option) \<Rightarrow> (cell \<times> cell) list
     \<Rightarrow> py_error + ('prot, 'pw) relation_index"
where
  "populate_pathway_protein get_pathway_by_id kegg_protein_id_to_protein entity_pathway =
     (let kegg_protein_ids = unique (map fst entity_pathway) in
      case index kegg_protein_ids 0 of
        Inl e \<Rightarrow> Inl e
      | Inr _ \<Rightarrow>
          populate_loop get_pathway_by_id kegg_protein_id_to_protein empty_index entity_pathway)"

text \<open>
  The contract of the build in the words of the specification, to compare the loop with:
  "for each membership pair: if the referenced pathway id is not in \<^verbatim>\<open>pathway_ids\<close>, skip
  the pair and record a lookup-miss; otherwise insert both directions of the edge", the
  pathway id being normalized first. \<open>membership_edges\<close> lists the edges to insert and
  \<open>lookup_misses\<close> the identifiers to report, both in the order of the rows.
\<close>

definition membership_edges ::
  "(string \<Rightarrow> 'pw option) \<Rightarrow> (cell \<Rightarrow> 'prot option) \<Rightarrow> (cell \<times> cell) list \<Rightarrow> ('prot \<times> 'pw) list"
where
  "membership_edges get_pathway_by_id kegg_protein_id_to_protein entity_pathway =
     List.map_filter
       (\<lambda>(kegg_protein_id, pathway_cell).
          case pathway_cell of
            Number _ \<Rightarrow> None
          | Text s \<Rightarrow>
              (case get_pathway_by_id (remove_path_prefix s) of
                 None \<Rightarrow> None
               | Some pathway \<Rightarrow>
                   map_option (\<lambda>protein. (protein, pathway))
                     (kegg_protein_id_to_protein kegg_protein_id)))
       entity_pathway"

definition lookup_misses :: "(string \<Rightarrow> 'pw option) \<Rightarrow> (cell \<times> cell) list \<Rightarrow> string list" where
  "lookup_misses get_pathway_by_id entity_pathway =
     List.map_filter
       (\<lambda>(kegg_protein_id, pathway_cell).
          case pathway_cell of
            Number _ \<Rightarrow> None
          | Text s \<Rightarrow>
              (if get_pathway_by_id (remove_path_prefix s) = None
               then Some (remove_path_prefix s) else None))
       entity_pathway"

text \<open>
  Example data in the shape of the membership table: two stored pathways, three
  proteins, rows that name the pathways with and without the prefix, a row of a pathway
  that is not stored, a table that holds one row twice, and a table with a pathway field
  \<^verbatim>\<open>NA\<close>, which \<^verbatim>\<open>read_csv\<close> delivers as \<^verbatim>\<open>nan\<close>.
\<close>

definition example_pathways :: "string \<Rightarrow> string option" where
  "example_pathways = map_of [(''hsa00030'', ''hsa00030''), (''hsa00010'', ''hsa00010'')]"

definition example_proteins :: "cell \<Rightarrow> string option" where
  "example_proteins =
     map_of [(Text ''hsa:5214'', ''hsa:5214''), (Text ''hsa:5213'', ''hsa:5213''),
             (Text ''hsa:1'', ''hsa:1'')]"

definition example_membership :: "(cell \<times> cell) list" where
  "example_membership =
     [(Text ''hsa:5214'', Text ''path:hsa00030''), (Text ''hsa:5213'', Text ''path:hsa00030''),
      (Text ''hsa:5214'', Text ''hsa00010''), (Text ''hsa:1'', Text ''path:hsa99999'')]"

definition example_repeated :: "(cell \<times> cell) list" where
  "example_repeated =
     [(Text ''hsa:5214'', Text ''path:hsa00030''), (Text ''hsa:5214'', Text ''path:hsa00030'')]"

definition example_missing :: "(cell \<times> cell) list" where
  "example_missing =
     [(Text ''hsa:5214'', Text ''path:hsa00030''), (Text ''hsa:5213'', Number ''nan'')]"

section \<open>The pathway subgraph\<close>

datatype ('prot, 'pw) node = PathwayNode 'pw | ProteinNode 'prot

datatype relation = PartOf

record ('prot, 'pw) graph =
  nodes :: "('prot, 'pw) node set"
  edges :: "(('prot, 'pw) node \<times> relation \<times> ('prot, 'pw) node) set"

datatype graph_error = UnknownPathwayError

text \<open>Modelled from the spec: \<^verbatim>\<open>get_pathway_graph\<close> is inherited from \<^verbatim>\<open>CompathManager\<close>
  and is not among the sources. "Resolve \<^verbatim>\<open>pathway_id\<close> via RelationIndex; if unknown,
  fails with \<^verbatim>\<open>UnknownPathwayError\<close>. Produce a new graph with one pathway node, one
  protein node per member, and one part-of edge per member."\<close>

definition extract_pathway_subgraph ::
  "(string \<Rightarrow> 'pw option) \<Rightarrow> ('prot, 'pw) relation_index \<Rightarrow> string
     \<Rightarrow> graph_error + ('prot, 'pw) graph"
where
  "extract_pathway_subgraph get_pathway_by_id idx pathway_id =
     (case get_pathway_by_id pathway_id of
        None \<Rightarrow> Inl UnknownPathwayError
      | Some pathway \<Rightarrow>
          Inr \<lparr>nodes = insert (PathwayNode pathway) (ProteinNode ` set (pathway_proteins idx pathway)),
               edges = (\<lambda>p. (ProteinNode p, PartOf, PathwayNode pathway)) `
                         set (pathway_proteins idx pathway)\<rparr>)"

section \<open>Properties of the line parsers\<close>

lemma split_sep_unfold:
  "split_sep sep cur s =
     (if sep \<in> set s
      then (cur @ takeWhile (\<lambda>c. c \<noteq> sep) s) # split_sep sep [] (tl (dropWhile (\<lambda>c. c \<noteq> sep) s))
      else [cur @ s])"
  by (induction s arbitrary: cur) auto

lemma split_sep_one:
  assumes "count_list r sep = 1"
  shows "split_sep sep cur r = [cur @ takeWhile (\<lambda>c. c \<noteq> sep) r, tl (dropWhile (\<lambda>c. c \<noteq> sep) r)]"
  using assms
proof (induction r arbitrary: cur)
  case Nil
  then show ?case by simp
next
  case (Cons c r)
  show ?case
  proof (cases "c = sep")
    case True
    with Cons.prems have "sep \<notin> set r" by (simp add: count_list_0_iff)
    with True show ?thesis by (simp add: split_sep_unfold[of sep "[]" r])
  next
    case False
    with Cons.prems have c: "count_list r sep = 1" by simp
    show ?thesis using False Cons.IH[OF c, of "cur @ [c]"] by simp
  qed
qed

lemma remove_first_word_eq:
  "remove_first_word s =
     (if CHR '' '' \<in> set s then Inr (strip (tl (dropWhile (\<lambda>c. c \<noteq> CHR '' '') s)))
      else Inl IndexError)"
  by (simp add: remove_first_word_def index_def split_space_once_def)

lemma set_tl_subset: "set (tl xs) \<subseteq> set xs"
  by (cases xs) auto

lemma set_dropWhile_subset: "set (dropWhile P xs) \<subseteq> set xs"
  by (induction xs) auto

lemma set_strip_where: "set (strip_where P s) \<subseteq> set s"
proof -
  have "set (dropWhile P (rev (dropWhile P s))) \<subseteq> set (rev (dropWhile P s))"
    by (rule set_dropWhile_subset)
  also have "\<dots> = set (dropWhile P s)"
    by simp
  also have "\<dots> \<subseteq> set s"
    by (rule set_dropWhile_subset)
  finally show ?thesis by (simp add: strip_where_def)
qed

lemma remove_first_word_set:
  assumes "remove_first_word line = Inr r"
  shows "set r \<subseteq> set line"
proof -
  have "CHR '' '' \<in> set line"
    using assms by (cases "CHR '' '' \<in> set line") (simp_all add: remove_first_word_eq)
  with assms have r: "r = strip (tl (dropWhile (\<lambda>c. c \<noteq> CHR '' '') line))"
    by (simp add: remove_first_word_eq)
  have "set r \<subseteq> set (tl (dropWhile (\<lambda>c. c \<noteq> CHR '' '') line))"
    unfolding r strip_def by (rule set_strip_where)
  also have "\<dots> \<subseteq> set (dropWhile (\<lambda>c. c \<noteq> CHR '' '') line)"
    by (rule set_tl_subset)
  also have "\<dots> \<subseteq> set line"
    by (rule set_dropWhile_subset)
  finally show ?thesis .
qed

lemma parse_link_line_no_colon:
  assumes "CHR '':'' \<notin> set line"
  shows "parse_link_line line = Inl (if CHR '' '' \<in> set line then ValueError else IndexError)"
proof (cases "CHR '' '' \<in> set line")
  case False
  then show ?thesis by (simp add: parse_link_line_def remove_first_word_eq)
next
  case True
  then obtain r where r: "remove_first_word line = Inr r"
    by (simp add: remove_first_word_eq)
  with assms have "CHR '':'' \<notin> set r"
    using remove_first_word_set by blast
  then have "split_sep (CHR '':'') [] r = [r]"
    by (simp add: split_sep_unfold[of _ "[]" r])
  with r True show ?thesis by (simp add: parse_link_line_def)
qed

lemma parse_lines_append:
  "parse_lines st (pre @ post) =
     (case parse_lines st pre of Inl e \<Rightarrow> Inl e | Inr st' \<Rightarrow> parse_lines st' post)"
  by (induction pre arbitrary: st) (auto split: sum.splits)

lemma parse_line_DBLINKS:
  assumes "line_keyword st line = Some ''DBLINKS''" and "parse_link_line line = Inl e"
  shows "parse_line st line = Inl e"
  using assms by (simp add: parse_line_def Let_def)

lemma get_first_word_no_space: "CHR '' '' \<notin> set line \<Longrightarrow> get_first_word line = line"
  by (simp add: get_first_word_def split_space_once_def)

lemma starts_with_space_mem: "starts_with_space line \<Longrightarrow> CHR '' '' \<in> set line"
  by (auto simp: starts_with_space_def split: list.splits)

text \<open>
  C1, as the code has it. \<^verbatim>\<open>parse_link_line\<close> removes the text up to the first space
  character and trims the rest; when that remainder holds exactly one colon, the result
  is the text before the colon and the text after it, each trimmed, and nothing is
  raised. The line \<^verbatim>\<open>DBLINKS     NCBI-GeneID: 5214\<close>, with the keyword in the first
  column as KEGG writes it, gives \<^verbatim>\<open>('NCBI-GeneID', '5214')\<close>.
\<close>

theorem parse_link_line_one_colon:
  "(remove_first_word line = Inr r \<and> count_list r (CHR '':'') = 1 \<longrightarrow>
      parse_link_line line =
        Inr (strip (takeWhile (\<lambda>c. c \<noteq> CHR '':'') r),
             strip (tl (dropWhile (\<lambda>c. c \<noteq> CHR '':'') r)))) \<and>
   parse_link_line ''DBLINKS     NCBI-GeneID: 5214'' = Inr (''NCBI-GeneID'', ''5214'')"
proof (intro conjI impI)
  assume "remove_first_word line = Inr r \<and> count_list r (CHR '':'') = 1"
  then show "parse_link_line line =
        Inr (strip (takeWhile (\<lambda>c. c \<noteq> CHR '':'') r),
             strip (tl (dropWhile (\<lambda>c. c \<noteq> CHR '':'') r)))"
    by (simp add: parse_link_line_def split_sep_one)
next
  show "parse_link_line ''DBLINKS     NCBI-GeneID: 5214'' = Inr (''NCBI-GeneID'', ''5214'')"
    by code_simp
qed

text \<open>The theorem at a continuation line of a \<^verbatim>\<open>DBLINKS\<close> section.\<close>

theorem parse_link_line_one_colon_witness:
  "remove_first_word ''            NCBI-ProteinID: NP_002618'' = Inr ''NCBI-ProteinID: NP_002618'' \<and>
   count_list ''NCBI-ProteinID: NP_002618'' (CHR '':'') = 1 \<and>
   parse_link_line ''            NCBI-ProteinID: NP_002618'' = Inr (''NCBI-ProteinID'', ''NP_002618'')"
proof -
  have r: "remove_first_word ''            NCBI-ProteinID: NP_002618'' = Inr ''NCBI-ProteinID: NP_002618''"
    by code_simp
  have c: "count_list ''NCBI-ProteinID: NP_002618'' (CHR '':'') = 1"
    by code_simp
  have s: "strip (takeWhile (\<lambda>c. c \<noteq> CHR '':'') ''NCBI-ProteinID: NP_002618'') = ''NCBI-ProteinID''"
    by code_simp
  have t: "strip (tl (dropWhile (\<lambda>c. c \<noteq> CHR '':'') ''NCBI-ProteinID: NP_002618'')) = ''NP_002618''"
    by code_simp
  have "parse_link_line ''            NCBI-ProteinID: NP_002618'' = Inr (''NCBI-ProteinID'', ''NP_002618'')"
    using parse_link_line_one_colon[of "''            NCBI-ProteinID: NP_002618''" "''NCBI-ProteinID: NP_002618''"] r c
    unfolding s t by blast
  with r c show ?thesis by blast
qed

text \<open>
  C1 as stated fails twice. On the indented line of the scenario the first space
  character is the first character, so the word removed is empty and \<^verbatim>\<open>DBLINKS\<close> stays in
  the database name. And the split is at every colon, not at the first: a remainder
  with two colons does not unpack into two names and \<^verbatim>\<open>ValueError\<close> is raised.
\<close>

theorem parse_link_line_counterexample:
  "parse_link_line ''  DBLINKS     NCBI-GeneID: 5214'' = Inr (''DBLINKS     NCBI-GeneID'', ''5214'') \<and>
   parse_link_line ''DBLINKS     Pharos: Q01813: Tbio'' = Inl ValueError"
  by code_simp

text \<open>
  C2, as the code has it. A line without a colon never yields a pair: the unpacking of
  the one-element list raises \<^verbatim>\<open>ValueError\<close>, and a line without a space character
  raises \<^verbatim>\<open>IndexError\<close> in \<^verbatim>\<open>remove_first_word\<close> before that. \<^verbatim>\<open>parse_description\<close>
  has no \<^verbatim>\<open>try\<close>: when the lines before are read without error and the line is read
  under the keyword \<^verbatim>\<open>DBLINKS\<close>, the same exception ends \<^verbatim>\<open>parse_description\<close>.
\<close>

theorem dblinks_without_colon_raises:
  assumes "CHR '':'' \<notin> set line"
  shows "parse_link_line line = Inl (if CHR '' '' \<in> set line then ValueError else IndexError) \<and>
    (parse_lines init_state pre = Inr st \<and> line_keyword st line = Some ''DBLINKS'' \<longrightarrow>
       parse_description (pre @ line # rest) =
         Inl (if CHR '' '' \<in> set line then ValueError else IndexError))"
proof (intro conjI impI)
  show l: "parse_link_line line = Inl (if CHR '' '' \<in> set line then ValueError else IndexError)"
    using assms by (rule parse_link_line_no_colon)
  assume a: "parse_lines init_state pre = Inr st \<and> line_keyword st line = Some ''DBLINKS''"
  then have "parse_line st line = Inl (if CHR '' '' \<in> set line then ValueError else IndexError)"
    using l by (simp add: parse_line_DBLINKS)
  with a show "parse_description (pre @ line # rest) =
         Inl (if CHR '' '' \<in> set line then ValueError else IndexError)"
    by (simp add: parse_description_def parse_lines_append)
qed


text \<open>The theorem at the second line of a record: a \<^verbatim>\<open>DBLINKS\<close> line without a colon.\<close>

theorem dblinks_without_colon_raises_witness:
  "CHR '':'' \<notin> set ''DBLINKS     NCBI-GeneID 5214'' \<and>
   parse_link_line ''DBLINKS     NCBI-GeneID 5214'' = Inl ValueError \<and>
   parse_description [''ENTRY       5214   CDS'', ''DBLINKS     NCBI-GeneID 5214''] = Inl ValueError"
proof -
  let ?st = "\<lparr>keyword = Some ''ENTRY'', descr = empty_description\<lparr>ENTRY := Some [''5214'', ''CDS'']\<rparr>\<rparr>"
  have n: "CHR '':'' \<notin> set ''DBLINKS     NCBI-GeneID 5214''"
    by simp
  have sp: "CHR '' '' \<in> set ''DBLINKS     NCBI-GeneID 5214''"
    by simp
  have p: "parse_lines init_state [''ENTRY       5214   CDS''] = Inr ?st"
    by code_simp
  have k: "line_keyword ?st ''DBLINKS     NCBI-GeneID 5214'' = Some ''DBLINKS''"
    by code_simp
  have "parse_link_line ''DBLINKS     NCBI-GeneID 5214'' = Inl ValueError \<and>
    (parse_lines init_state [''ENTRY       5214   CDS''] = Inr ?st \<and>
     line_keyword ?st ''DBLINKS     NCBI-GeneID 5214'' = Some ''DBLINKS'' \<longrightarrow>
       parse_description ([''ENTRY       5214   CDS''] @ ''DBLINKS     NCBI-GeneID 5214'' # []) =
         Inl ValueError)"
    using dblinks_without_colon_raises[OF n, of "[''ENTRY       5214   CDS'']" ?st "[]"]
    unfolding if_P[OF sp] .
  with n p k show ?thesis by simp
qed

text \<open>
  C2 as stated names an exception the code does not have. On the line of the scenario
  the exception is the interpreter's \<^verbatim>\<open>ValueError\<close> for the failed unpacking, whose
  message gives the two counts and not the line; a line that is the bare keyword raises
  \<^verbatim>\<open>IndexError\<close> before the colon is looked for.
\<close>

theorem dblinks_without_colon_counterexample:
  "parse_link_line ''  DBLINKS     NCBI-GeneID 5214'' = Inl ValueError \<and>
   parse_link_line ''DBLINKS'' = Inl IndexError"
  by code_simp

text \<open>Every other line read under a keyword that is not \<^verbatim>\<open>DBLINKS\<close> is processed without
  an exception.\<close>

lemma parse_line_other_lines:
  assumes "line_keyword st line = Some kw" and "kw \<noteq> ''DBLINKS''" and "line \<noteq> ''PATHWAY''"
  shows "\<exists>st'. parse_line st line = Inr st'"
proof (cases "kw = ''PATHWAY''")
  case False
  with assms show ?thesis by (simp add: parse_line_def Let_def)
next
  case True
  have "CHR '' '' \<in> set line"
  proof (rule ccontr)
    assume ns: "CHR '' '' \<notin> set line"
    then have "\<not> starts_with_space line" using starts_with_space_mem by blast
    with assms(1) ns have "kw = line"
      by (simp add: line_keyword_def get_first_word_no_space)
    with True assms(3) show False by simp
  qed
  then obtain t where "parse_pathway_line line = Inr t"
    by (simp add: parse_pathway_line_def remove_first_word_eq)
  with assms True show ?thesis
    by (simp add: parse_line_def Let_def split: option.splits)
qed

text \<open>
  C3. The claim's own example, a \<^verbatim>\<open>PATHWAY\<close> line with no payload, is not tolerated:
  \<^verbatim>\<open>'PATHWAY'.split(' ', 1)\<close> has one element, the index 1 is out of range, and the
  \<^verbatim>\<open>IndexError\<close> ends \<^verbatim>\<open>parse_description\<close>. The other branches do tolerate the bare
  keyword: \<^verbatim>\<open>ENTRY\<close> gives the empty tuple, \<^verbatim>\<open>NAME\<close> is guarded by
  \<^verbatim>\<open>if entry_name:\<close> and stores nothing, and \<^verbatim>\<open>PATHWAY\<close> followed by one space gives
  the tuple of the empty string.
\<close>

theorem bare_pathway_line_raises:
  "parse_pathway_line ''PATHWAY'' = Inl IndexError \<and>
   parse_description [''ENTRY       5214   CDS'', ''PATHWAY''] = Inl IndexError \<and>
   parse_description [''ENTRY''] = Inr (empty_description\<lparr>ENTRY := Some []\<rparr>) \<and>
   parse_description [''NAME''] = Inr empty_description \<and>
   parse_description [''PATHWAY ''] = Inr (empty_description\<lparr>PATHWAY := Some [[[]]]\<rparr>)"
  by code_simp

text \<open>
  C10, as the code has it. The test for a continuation line is
  \<^verbatim>\<open>line.startswith(' ')\<close>: when the first line starts with a space character,
  \<^verbatim>\<open>keyword\<close> is read before any assignment and \<^verbatim>\<open>parse_description\<close> raises
  \<^verbatim>\<open>UnboundLocalError\<close>, whatever the lines after it.
\<close>

theorem unbound_keyword_on_leading_space:
  assumes "starts_with_space line"
  shows "parse_description (line # rest) = Inl UnboundLocalError"
  using assms
  by (simp add: parse_description_def parse_line_def line_keyword_def init_state_def)

text \<open>The theorem at a record that starts with a continuation line.\<close>

theorem unbound_keyword_on_leading_space_witness:
  "starts_with_space ''            NCBI-ProteinID: NP_002618'' \<and>
   parse_description [''            NCBI-ProteinID: NP_002618'', ''ENTRY       5214   CDS''] =
     Inl UnboundLocalError"
proof -
  have s: "starts_with_space ''            NCBI-ProteinID: NP_002618''"
    by (simp add: starts_with_space_def)
  from unbound_keyword_on_leading_space[OF s, of "[''ENTRY       5214   CDS'']"] s
  show ?thesis by blast
qed

text \<open>
  C10 as stated speaks of whitespace. A tab is whitespace, but a first line that starts
  with a tab is not a continuation line for the code: its first word becomes the
  keyword, no branch matches it, and the empty dictionary is returned.
\<close>

theorem leading_tab_counterexample:
  "is_space (CHR 0x09) \<and>
   parse_description [CHR 0x09 # ''DBLINKS     NCBI-GeneID: 5214''] = Inr empty_description"
  by code_simp


section \<open>Properties of the projection\<close>

lemma map_of_dict_set: "map_of (dict_set d k v) = (map_of d)(k \<mapsto> v)"
  by (induction d k v rule: dict_set.induct) (auto simp: fun_upd_twist)

lemma keys_dict_set: "fst ` set (dict_set d k v) = insert k (fst ` set d)"
  by (induction d k v rule: dict_set.induct) auto

lemma distinct_dict_set: "distinct (map fst d) \<Longrightarrow> distinct (map fst (dict_set d k v))"
proof (induction d k v rule: dict_set.induct)
  case (1 k v)
  then show ?case by simp
next
  case (2 k' v' d k v)
  then show ?case
    using keys_dict_set[of d k v] by (auto simp: image_iff)
qed


text \<open>Storing a list of items one after the other.\<close>

lemma fold_dict_set_map_of:
  "map_of (fold (\<lambda>(k, v) acc. dict_set acc k v) kvs acc) = map_of acc ++ map_of (rev kvs)"
proof (induction kvs arbitrary: acc)
  case Nil
  then show ?case by simp
next
  case (Cons kv kvs)
  let ?F = "\<lambda>(k, v) acc. dict_set acc k v"
  obtain k v where kv: "kv = (k, v)" by (cases kv)
  have "map_of (fold ?F (kv # kvs) acc) = map_of (fold ?F kvs (dict_set acc k v))"
    by (simp add: kv)
  also have "\<dots> = map_of (dict_set acc k v) ++ map_of (rev kvs)"
    by (rule Cons.IH)
  also have "\<dots> = map_of acc ++ map_of (rev (kv # kvs))"
    by (rule ext) (simp add: kv map_of_dict_set map_add_def split: option.splits)
  finally show ?case .
qed

lemma fold_dict_set_distinct:
  "distinct (map fst acc) \<Longrightarrow> distinct (map fst (fold (\<lambda>(k, v) acc. dict_set acc k v) kvs acc))"
  by (induction kvs arbitrary: acc) (auto simp: distinct_dict_set)


text \<open>The items \<^verbatim>\<open>kegg_properties_to_models\<close> stores, in the order it stores them.\<close>

lemma kegg_properties_to_models_fold_acc:
  "fold (\<lambda>(key, value) acc.
           if length value < 255 then dict_set acc (lower key @ ''_id'') value else acc) attrs acc =
     fold (\<lambda>(k, v) acc. dict_set acc k v)
       (map (\<lambda>(key, value). (lower key @ ''_id'', value))
          (filter (\<lambda>(key, value). length value < 255) attrs)) acc"
  by (induction attrs arbitrary: acc) (simp_all add: case_prod_beta)

lemma kegg_properties_to_models_fold:
  "kegg_properties_to_models attrs =
     fold (\<lambda>(k, v) acc. dict_set acc k v)
       (map (\<lambda>(key, value). (lower key @ ''_id'', value))
          (filter (\<lambda>(key, value). length value < 255) attrs)) []"
  unfolding kegg_properties_to_models_def by (rule kegg_properties_to_models_fold_acc)

lemma kegg_properties_to_models_map_of:
  "map_of (kegg_properties_to_models attrs) =
     map_of (rev (map (\<lambda>(key, value). (lower key @ ''_id'', value))
                   (filter (\<lambda>(key, value). length value < 255) attrs)))"
  by (simp only: kegg_properties_to_models_fold fold_dict_set_map_of map_of.simps empty_map_add)

lemma kegg_properties_to_models_distinct: "distinct (map fst (kegg_properties_to_models attrs))"
  by (simp only: kegg_properties_to_models_fold) (rule fold_dict_set_distinct, simp)

lemma kegg_properties_to_models_mem:
  assumes "(k, v) \<in> set (kegg_properties_to_models attrs)"
  shows "length v < 255 \<and> (\<exists>K. (K, v) \<in> set attrs \<and> k = lower K @ ''_id'')"
proof -
  from assms have "map_of (kegg_properties_to_models attrs) k = Some v"
    by (simp add: kegg_properties_to_models_distinct)
  then have "(k, v) \<in> set (rev (map (\<lambda>(key, value). (lower key @ ''_id'', value))
                   (filter (\<lambda>(key, value). length value < 255) attrs)))"
    unfolding kegg_properties_to_models_map_of by (rule map_of_SomeD)
  then show ?thesis by auto
qed

lemma kegg_properties_to_models_keys:
  "fst ` set (kegg_properties_to_models attrs) =
     (\<lambda>(K, v). lower K @ ''_id'') ` {(K, v) \<in> set attrs. length v < 255}"
proof -
  have "fst ` set (kegg_properties_to_models attrs) = dom (map_of (kegg_properties_to_models attrs))"
    by (simp add: dom_map_of_conv_image_fst)
  also have "\<dots> = fst ` set (rev (map (\<lambda>(key, value). (lower key @ ''_id'', value))
                   (filter (\<lambda>(key, value). length value < 255) attrs)))"
    unfolding kegg_properties_to_models_map_of by (simp only: dom_map_of_conv_image_fst)
  also have "\<dots> = (\<lambda>(K, v). lower K @ ''_id'') ` {(K, v) \<in> set attrs. length v < 255}"
    by (auto simp: image_iff) force+
  finally show ?thesis .
qed

text \<open>
  C4. In the dictionary that \<^verbatim>\<open>kegg_properties_to_models\<close> returns, every value is
  shorter than 255 characters and every key is \<^verbatim>\<open>K.lower() + '_id'\<close> for a key \<^verbatim>\<open>K\<close> that
  carried this value in the input; the keys of the result are exactly the renamed keys
  of the input items whose value is shorter than 255. So no value of 255 characters or
  more reaches the result of \<^verbatim>\<open>process_protein_info_to_model\<close>, whatever the record and
  the allowed columns.
\<close>

theorem kegg_properties_to_models_projection:
  "(\<forall>(k, v) \<in> set (kegg_properties_to_models attrs).
      length v < 255 \<and> (\<exists>K. (K, v) \<in> set attrs \<and> k = lower K @ ''_id'')) \<and>
   fst ` set (kegg_properties_to_models attrs) =
     (\<lambda>(K, v). lower K @ ''_id'') ` {(K, v) \<in> set attrs. length v < 255} \<and>
   (process_protein_info_to_model dblinks protein_resources lines = Inr out \<longrightarrow>
      (\<forall>(k, v) \<in> set out. length v < 255))"
proof (intro conjI impI)
  show "\<forall>(k, v) \<in> set (kegg_properties_to_models attrs).
      length v < 255 \<and> (\<exists>K. (K, v) \<in> set attrs \<and> k = lower K @ ''_id'')"
    using kegg_properties_to_models_mem by blast
  show "fst ` set (kegg_properties_to_models attrs) =
     (\<lambda>(K, v). lower K @ ''_id'') ` {(K, v) \<in> set attrs. length v < 255}"
    by (rule kegg_properties_to_models_keys)
  assume "process_protein_info_to_model dblinks protein_resources lines = Inr out"
  then obtain a where "out = kegg_properties_to_models a"
    by (auto simp: process_protein_info_to_model_def split: sum.splits)
  then show "\<forall>(k, v) \<in> set out. length v < 255"
    using kegg_properties_to_models_mem by blast
qed

text \<open>The theorem at a dictionary with one short and one long value, and at a record.\<close>

theorem kegg_properties_to_models_projection_witness:
  "(''hgnc_id'', ''8878'') \<in>
     set (kegg_properties_to_models [(''HGNC'', ''8878''), (''UniProt'', replicate 255 (CHR ''Q''))]) \<and>
   length ''8878'' < 255 \<and>
   (\<exists>K. (K, ''8878'') \<in> set [(''HGNC'', ''8878''), (''UniProt'', replicate 255 (CHR ''Q''))] \<and>
        ''hgnc_id'' = lower K @ ''_id'') \<and>
   fst ` set (kegg_properties_to_models [(''HGNC'', ''8878''), (''UniProt'', replicate 255 (CHR ''Q''))]) =
     {''hgnc_id''} \<and>
   process_protein_info_to_model ''DBLINKS'' [''HGNC'', ''UniProt'']
     [''ENTRY       5214   CDS'', ''DBLINKS     OMIM: 171840'', ''            HGNC: 8878''] =
     Inr [(''hgnc_id'', ''8878'')]"
proof -
  let ?A = "[(''HGNC'', ''8878''), (''UniProt'', replicate 255 (CHR ''Q''))]"
  let ?L = "[''ENTRY       5214   CDS'', ''DBLINKS     OMIM: 171840'', ''            HGNC: 8878'']"
  have e: "kegg_properties_to_models ?A = [(''hgnc_id'', ''8878'')]"
    by code_simp
  have p: "process_protein_info_to_model ''DBLINKS'' [''HGNC'', ''UniProt''] ?L =
             Inr [(''hgnc_id'', ''8878'')]"
    by code_simp
  have m: "(''hgnc_id'', ''8878'') \<in> set (kegg_properties_to_models ?A)"
    unfolding e by simp
  have k: "fst ` set (kegg_properties_to_models ?A) = {''hgnc_id''}"
    unfolding e by simp
  note t = kegg_properties_to_models_projection[of ?A "''DBLINKS''" "[''HGNC'', ''UniProt'']" ?L
             "[(''hgnc_id'', ''8878'')]"]
  from t m have "length ''8878'' < 255 \<and>
      (\<exists>K. (K, ''8878'') \<in> set ?A \<and> ''hgnc_id'' = lower K @ ''_id'')"
    by blast
  moreover from t p have "\<forall>(k, v) \<in> set [(''hgnc_id'', ''8878'')]. length v < 255"
    by blast
  ultimately show ?thesis using m k p by blast
qed





section \<open>Properties of the protein--pathway relation\<close>

lemma unique_snoc: "unique (xs @ [x]) = set_add (unique xs) x"
  by (simp add: unique_def set_add_def)

lemma set_unique: "set (unique xs) = set xs"
  by (simp add: unique_def)

lemma distinct_unique: "distinct (unique xs)"
  by (simp add: unique_def)

lemma distinct_count_list:
  "distinct xs \<Longrightarrow> count_list xs x = (if x \<in> set xs then 1 else 0)"
  by (induction xs) auto

lemma unique_Nil: "unique [] = []"
  by (simp add: unique_def)

lemma membership_edges_Nil: "membership_edges g d [] = []"
  by (simp add: membership_edges_def map_filter_simps)

lemma membership_edges_append:
  "membership_edges g d (rows @ rows') = membership_edges g d rows @ membership_edges g d rows'"
  by (simp add: membership_edges_def map_filter_def)

lemma lookup_misses_Nil: "lookup_misses g [] = []"
  by (simp add: lookup_misses_def map_filter_simps)

lemma lookup_misses_append:
  "lookup_misses g (rows @ rows') = lookup_misses g rows @ lookup_misses g rows'"
  by (simp add: lookup_misses_def map_filter_def)

lemma populate_loop_append:
  "populate_loop g d idx (rows @ rows') =
     (case populate_loop g d idx rows of
        Inl e \<Rightarrow> Inl e
      | Inr idx' \<Rightarrow> populate_loop g d idx' rows')"
  by (induction rows arbitrary: idx) (auto split: sum.splits)

text \<open>What one row does to the state, when it does not raise.\<close>

lemma populate_row_Inr:
  assumes "populate_row g d idx row = Inr idx'"
  shows "(\<forall>p. protein_pathways idx' p =
            (case membership_edges g d [row] of
               [] \<Rightarrow> protein_pathways idx p
             | (q, w) # _ \<Rightarrow> if p = q then set_add (protein_pathways idx p) w else protein_pathways idx p)) \<and>
         (\<forall>w. pathway_proteins idx' w =
            (case membership_edges g d [row] of
               [] \<Rightarrow> pathway_proteins idx w
             | (q, v) # _ \<Rightarrow> if w = v then set_add (pathway_proteins idx w) q else pathway_proteins idx w)) \<and>
         warnings idx' = warnings idx @ lookup_misses g [row] \<and>
         length (membership_edges g d [row]) \<le> 1"
proof -
  obtain pc c where row: "row = (pc, c)" by (cases row)
  show ?thesis
  proof (cases c)
    case (Number r)
    with assms row show ?thesis by (simp add: populate_row_def)
  next
    case (Text s)
    show ?thesis
    proof (cases "g (remove_path_prefix s)")
      case None
      with assms row Text show ?thesis
        by (auto simp: populate_row_def membership_edges_def lookup_misses_def map_filter_simps)
    next
      case (Some pw)
      show ?thesis
      proof (cases "d pc")
        case None
        with assms row Text Some show ?thesis by (simp add: populate_row_def)
      next
        case (Some prot)
        with assms row Text \<open>g (remove_path_prefix s) = Some pw\<close> show ?thesis
          by (auto simp: populate_row_def membership_edges_def lookup_misses_def map_filter_simps
              relationship_append_def)
      qed
    qed
  qed
qed

text \<open>The state after the rows read so far: the members are the edges of these rows,
  each once, in the order of their first occurrence.\<close>

lemma populate_loop_invariant:
  assumes "populate_loop g d empty_index rows = Inr idx"
  shows "(\<forall>p. protein_pathways idx p =
            unique (map snd (filter (\<lambda>e. fst e = p) (membership_edges g d rows)))) \<and>
         (\<forall>w. pathway_proteins idx w =
            unique (map fst (filter (\<lambda>e. snd e = w) (membership_edges g d rows)))) \<and>
         warnings idx = lookup_misses g rows"
  using assms
proof (induction rows arbitrary: idx rule: rev_induct)
  case Nil
  then show ?case
    by (auto simp: empty_index_def membership_edges_Nil lookup_misses_Nil unique_Nil)
next
  case (snoc row rows)
  from snoc.prems obtain idx0 where
    r0: "populate_loop g d empty_index rows = Inr idx0" and
    r1: "populate_row g d idx0 row = Inr idx"
    by (auto simp: populate_loop_append split: sum.splits)
  note ih = snoc.IH[OF r0]
  note st = populate_row_Inr[OF r1]
  show ?case
  proof (cases "membership_edges g d [row]")
    case Nil
    with ih st show ?thesis
      by (simp add: membership_edges_append lookup_misses_append)
  next
    case (Cons e es)
    with st have es: "es = []" by simp
    obtain q v where e: "e = (q, v)" by (cases e)
    have m: "membership_edges g d [row] = [(q, v)]"
      using Cons es e by simp
    have a: "\<forall>p. protein_pathways idx p =
            unique (map snd (filter (\<lambda>e. fst e = p) (membership_edges g d (rows @ [row]))))"
      using ih st by (simp add: membership_edges_append m unique_snoc)
    have b: "\<forall>w. pathway_proteins idx w =
            unique (map fst (filter (\<lambda>e. snd e = w) (membership_edges g d (rows @ [row]))))"
      using ih st by (simp add: membership_edges_append m unique_snoc)
    have c: "warnings idx = lookup_misses g (rows @ [row])"
      using ih st by (simp add: lookup_misses_append)
    from a b c show ?thesis by blast
  qed
qed

lemma populate_pathway_protein_empty: "populate_pathway_protein g d [] = Inl IndexError"
  by (simp add: populate_pathway_protein_def unique_def index_def)

lemma populate_pathway_protein_loop:
  assumes "rows \<noteq> []"
  shows "populate_pathway_protein g d rows = populate_loop g d empty_index rows"
proof -
  from assms have "set (unique (map fst rows)) \<noteq> {}"
    by (simp add: set_unique)
  then have "unique (map fst rows) \<noteq> []"
    by auto
  then show ?thesis
    by (simp add: populate_pathway_protein_def index_def Let_def)
qed

lemma populate_pathway_protein_invariant:
  assumes "populate_pathway_protein g d rows = Inr idx"
  shows "(\<forall>p. protein_pathways idx p =
            unique (map snd (filter (\<lambda>e. fst e = p) (membership_edges g d rows)))) \<and>
         (\<forall>w. pathway_proteins idx w =
            unique (map fst (filter (\<lambda>e. snd e = w) (membership_edges g d rows)))) \<and>
         warnings idx = lookup_misses g rows"
proof -
  from assms have "rows \<noteq> []"
    by (auto simp: populate_pathway_protein_empty)
  with assms have "populate_loop g d empty_index rows = Inr idx"
    by (simp add: populate_pathway_protein_loop)
  then show ?thesis by (rule populate_loop_invariant)
qed

text \<open>The build returns an index when the table is not empty, every pathway cell is a
  string and the dictionary holds the protein of every row whose pathway is found.\<close>

lemma populate_loop_returns:
  assumes "\<forall>(pc, c) \<in> set rows. \<exists>s. c = Text s \<and> (g (remove_path_prefix s) \<noteq> None \<longrightarrow> d pc \<noteq> None)"
  shows "\<exists>idx'. populate_loop g d idx rows = Inr idx'"
  using assms
proof (induction rows arbitrary: idx)
  case Nil
  then show ?case by simp
next
  case (Cons row rows)
  obtain pc c where row: "row = (pc, c)" by (cases row)
  from Cons.prems row obtain s where
    c: "c = Text s" and k: "g (remove_path_prefix s) \<noteq> None \<longrightarrow> d pc \<noteq> None"
    by auto
  have "\<exists>idx1. populate_row g d idx row = Inr idx1"
    using k by (cases "g (remove_path_prefix s)") (auto simp: populate_row_def row c)
  then obtain idx1 where s1: "populate_row g d idx row = Inr idx1" ..
  from Cons.prems have "\<forall>(pc, c) \<in> set rows.
      \<exists>s. c = Text s \<and> (g (remove_path_prefix s) \<noteq> None \<longrightarrow> d pc \<noteq> None)"
    by simp
  from Cons.IH[OF this, of idx1] s1 show ?case by simp
qed

lemma populate_pathway_protein_returns:
  assumes "rows \<noteq> []"
    and "\<forall>(pc, c) \<in> set rows. \<exists>s. c = Text s \<and> (g (remove_path_prefix s) \<noteq> None \<longrightarrow> d pc \<noteq> None)"
  shows "\<exists>idx. populate_pathway_protein g d rows = Inr idx"
  using populate_loop_returns[OF assms(2), of empty_index]
  by (simp add: populate_pathway_protein_loop[OF assms(1)])

lemma example_membership_returns:
  "\<exists>idx. populate_pathway_protein example_pathways example_proteins example_membership = Inr idx"
  by (rule populate_pathway_protein_returns)
     (simp_all add: example_membership_def example_pathways_def example_proteins_def
        remove_path_prefix_def)

lemma example_repeated_returns:
  "\<exists>idx. populate_pathway_protein example_pathways example_proteins example_repeated = Inr idx"
  by (rule populate_pathway_protein_returns)
     (simp_all add: example_repeated_def example_pathways_def example_proteins_def
        remove_path_prefix_def)

lemma example_membership_edges:
  "membership_edges example_pathways example_proteins example_membership =
     [(''hsa:5214'', ''hsa00030''), (''hsa:5213'', ''hsa00030''), (''hsa:5214'', ''hsa00010'')]"
  by code_simp

lemma example_repeated_edges:
  "membership_edges example_pathways example_proteins example_repeated =
     [(''hsa:5214'', ''hsa00030''), (''hsa:5214'', ''hsa00030'')]"
  by code_simp

text \<open>For tables of string cells the loop does what the contract asks: it returns an
  index, the pathways of a protein are those that the rows of the protein resolve to,
  and the warnings are the normalized identifiers that were not found.\<close>

lemma populate_pathway_protein_text_rows:
  assumes "rows \<noteq> []"
    and "\<forall>(pc, c) \<in> set rows. \<exists>s. c = Text s \<and> (g (remove_path_prefix s) \<noteq> None \<longrightarrow> d pc \<noteq> None)"
  shows "\<exists>idx. populate_pathway_protein g d rows = Inr idx \<and>
     (\<forall>p w. w \<in> set (protein_pathways idx p) \<longleftrightarrow> (p, w) \<in> set (membership_edges g d rows)) \<and>
     warnings idx = lookup_misses g rows"
proof -
  from populate_pathway_protein_returns[OF assms] obtain idx where
    r: "populate_pathway_protein g d rows = Inr idx" ..
  from populate_pathway_protein_invariant[OF r] have
    a: "\<forall>p. protein_pathways idx p =
          unique (map snd (filter (\<lambda>e. fst e = p) (membership_edges g d rows)))" and
    c: "warnings idx = lookup_misses g rows"
    by blast+
  have "\<forall>p w. w \<in> set (protein_pathways idx p) \<longleftrightarrow> (p, w) \<in> set (membership_edges g d rows)"
    using a by (auto simp: set_unique image_iff)
  with r c show ?thesis by blast
qed

text \<open>
  C6. The loop skips a pair whose normalized pathway identifier is not found and logs a
  warning, as the claim says, when the pathway cell is a string: the row of
  \<^verbatim>\<open>path:hsa99999\<close> in the example table is reported and the build returns. A pathway
  field \<^verbatim>\<open>NA\<close> or an empty one is not a string when it reaches the loop: \<^verbatim>\<open>startswith\<close>
  raises \<^verbatim>\<open>AttributeError\<close> and the build ends without an index, although the pair is
  one whose pathway is not among the known ones.
\<close>

theorem missing_pathway_cell_aborts_build:
  "populate_pathway_protein example_pathways example_proteins example_missing = Inl AttributeError \<and>
   \<not> isl (populate_pathway_protein example_pathways example_proteins example_membership) \<and>
   warnings (projr (populate_pathway_protein example_pathways example_proteins example_membership)) =
     [''hsa99999'']"
proof -
  have a: "populate_pathway_protein example_pathways example_proteins example_missing =
      Inl AttributeError"
    by (simp add: populate_pathway_protein_def unique_def index_def example_missing_def
        populate_row_def example_pathways_def example_proteins_def remove_path_prefix_def)
  from example_membership_returns obtain idx where
    r: "populate_pathway_protein example_pathways example_proteins example_membership = Inr idx" ..
  have l: "lookup_misses example_pathways example_membership = [''hsa99999'']"
    by code_simp
  from populate_pathway_protein_invariant[OF r] have "warnings idx = [''hsa99999'']"
    unfolding l by blast
  with a show ?thesis unfolding r by simp
qed

text \<open>
  C7. In an index that the build returns, a pathway is in the \<^verbatim>\<open>pathways\<close> of a protein
  if and only if the protein is in the \<^verbatim>\<open>proteins\<close> of the pathway.
\<close>

theorem relation_index_symmetric:
  assumes "populate_pathway_protein g d pairs = Inr idx"
  shows "pw \<in> set (protein_pathways idx p) \<longleftrightarrow> p \<in> set (pathway_proteins idx pw)"
proof -
  from populate_pathway_protein_invariant[OF assms] have
    a: "protein_pathways idx p =
          unique (map snd (filter (\<lambda>e. fst e = p) (membership_edges g d pairs)))" and
    b: "pathway_proteins idx pw =
          unique (map fst (filter (\<lambda>e. snd e = pw) (membership_edges g d pairs)))"
    by blast+
  have "pw \<in> set (protein_pathways idx p) \<longleftrightarrow> (p, pw) \<in> set (membership_edges g d pairs)"
    unfolding a by (auto simp: set_unique image_iff)
  also have "\<dots> \<longleftrightarrow> p \<in> set (pathway_proteins idx pw)"
    unfolding b by (auto simp: set_unique image_iff)
  finally show ?thesis .
qed

text \<open>The theorem at the example table.\<close>

theorem relation_index_symmetric_witness:
  "\<not> isl (populate_pathway_protein example_pathways example_proteins example_membership) \<and>
   ''hsa00030'' \<in> set (protein_pathways
     (projr (populate_pathway_protein example_pathways example_proteins example_membership))
     ''hsa:5214'') \<and>
   ''hsa:5214'' \<in> set (pathway_proteins
     (projr (populate_pathway_protein example_pathways example_proteins example_membership))
     ''hsa00030'')"
proof -
  from example_membership_returns obtain idx where
    r: "populate_pathway_protein example_pathways example_proteins example_membership = Inr idx" ..
  from populate_pathway_protein_invariant[OF r] have
    a: "protein_pathways idx ''hsa:5214'' =
          unique (map snd (filter (\<lambda>e. fst e = ''hsa:5214'')
            (membership_edges example_pathways example_proteins example_membership)))"
    by blast
  have m: "''hsa00030'' \<in> set (protein_pathways idx ''hsa:5214'')"
    unfolding a example_membership_edges by (simp add: set_unique)
  with relation_index_symmetric[OF r, of "''hsa00030''" "''hsa:5214''"]
  have "''hsa:5214'' \<in> set (pathway_proteins idx ''hsa00030'')"
    by blast
  with m show ?thesis unfolding r by simp
qed

text \<open>
  C8. In an index that the build returns no edge is held twice: the pathways of a
  protein and the proteins of a pathway are without repetition, and the edge between a
  protein and a pathway is held once exactly when some row of the table gives it,
  however often the row occurs.
\<close>

theorem membership_pairs_deduplicated:
  assumes "populate_pathway_protein g d rows = Inr idx"
  shows "distinct (protein_pathways idx p) \<and> distinct (pathway_proteins idx w) \<and>
         count_list (protein_pathways idx p) w \<le> 1 \<and>
         count_list (pathway_proteins idx w) p \<le> 1 \<and>
         (count_list (protein_pathways idx p) w = 1 \<longleftrightarrow> (p, w) \<in> set (membership_edges g d rows))"
proof -
  from populate_pathway_protein_invariant[OF assms] have
    a: "protein_pathways idx p =
          unique (map snd (filter (\<lambda>e. fst e = p) (membership_edges g d rows)))" and
    b: "pathway_proteins idx w =
          unique (map fst (filter (\<lambda>e. snd e = w) (membership_edges g d rows)))"
    by blast+
  have da: "distinct (protein_pathways idx p)" and db: "distinct (pathway_proteins idx w)"
    unfolding a b by (rule distinct_unique)+
  have ma: "w \<in> set (protein_pathways idx p) \<longleftrightarrow> (p, w) \<in> set (membership_edges g d rows)"
    unfolding a by (auto simp: set_unique image_iff)
  from da have ca: "count_list (protein_pathways idx p) w = (if w \<in> set (protein_pathways idx p) then 1 else 0)"
    by (rule distinct_count_list)
  from db have cb: "count_list (pathway_proteins idx w) p = (if p \<in> set (pathway_proteins idx w) then 1 else 0)"
    by (rule distinct_count_list)
  from da db ca cb ma show ?thesis by simp
qed

text \<open>The theorem at the table that holds one row twice: the edge is held once.\<close>

theorem membership_pairs_deduplicated_witness:
  "\<not> isl (populate_pathway_protein example_pathways example_proteins example_repeated) \<and>
   (''hsa:5214'', ''hsa00030'') \<in> set (membership_edges example_pathways example_proteins example_repeated) \<and>
   count_list (protein_pathways
     (projr (populate_pathway_protein example_pathways example_proteins example_repeated))
     ''hsa:5214'') ''hsa00030'' = 1 \<and>
   distinct (pathway_proteins
     (projr (populate_pathway_protein example_pathways example_proteins example_repeated))
     ''hsa00030'')"
proof -
  from example_repeated_returns obtain idx where
    r: "populate_pathway_protein example_pathways example_proteins example_repeated = Inr idx" ..
  have e: "(''hsa:5214'', ''hsa00030'') \<in>
      set (membership_edges example_pathways example_proteins example_repeated)"
    unfolding example_repeated_edges by simp
  from membership_pairs_deduplicated[OF r, of "''hsa:5214''" "''hsa00030''"] e
  have "count_list (protein_pathways idx ''hsa:5214'') ''hsa00030'' = 1"
    and "distinct (pathway_proteins idx ''hsa00030'')"
    by blast+
  with e show ?thesis unfolding r by simp
qed

text \<open>
  C9. For an identifier that resolves to a pathway, the subgraph has one node more than
  the pathway has distinct member proteins and as many edges as it has distinct member
  proteins; for an identifier that does not resolve, the result is
  \<^verbatim>\<open>UnknownPathwayError\<close>.
\<close>

theorem extract_pathway_subgraph_size:
  "(g pathway_id = None \<longrightarrow> extract_pathway_subgraph g idx pathway_id = Inl UnknownPathwayError) \<and>
   (g pathway_id = Some pw \<longrightarrow>
      (\<exists>gr. extract_pathway_subgraph g idx pathway_id = Inr gr \<and>
         card (nodes gr) = 1 + card (set (pathway_proteins idx pw)) \<and>
         card (edges gr) = card (set (pathway_proteins idx pw))))"
proof (intro conjI impI)
  assume "g pathway_id = None"
  then show "extract_pathway_subgraph g idx pathway_id = Inl UnknownPathwayError"
    by (simp add: extract_pathway_subgraph_def)
next
  let ?members = "set (pathway_proteins idx pw)"
  let ?gr = "\<lparr>nodes = insert (PathwayNode pw) (ProteinNode ` ?members),
             edges = (\<lambda>p. (ProteinNode p, PartOf, PathwayNode pw)) ` ?members\<rparr>"
  assume "g pathway_id = Some pw"
  then have r: "extract_pathway_subgraph g idx pathway_id = Inr ?gr"
    by (simp add: extract_pathway_subgraph_def)
  have n: "card (nodes ?gr) = 1 + card ?members"
    by (simp add: card_insert_if card_image inj_on_def image_iff)
  have e: "card (edges ?gr) = card ?members"
    by (simp add: card_image inj_on_def)
  from r n e show "\<exists>gr. extract_pathway_subgraph g idx pathway_id = Inr gr \<and>
         card (nodes gr) = 1 + card (set (pathway_proteins idx pw)) \<and>
         card (edges gr) = card (set (pathway_proteins idx pw))"
    by blast
qed

text \<open>The theorem at the index built from the example table: a pathway with two members,
  and an identifier that is not stored.\<close>

theorem extract_pathway_subgraph_size_witness:
  "\<not> isl (populate_pathway_protein example_pathways example_proteins example_membership) \<and>
   example_pathways ''hsa00030'' = Some ''hsa00030'' \<and>
   (\<exists>gr. extract_pathway_subgraph example_pathways
            (projr (populate_pathway_protein example_pathways example_proteins example_membership))
            ''hsa00030'' = Inr gr \<and>
      card (nodes gr) = 3 \<and> card (edges gr) = 2) \<and>
   example_pathways ''hsa99999'' = None \<and>
   extract_pathway_subgraph example_pathways
     (projr (populate_pathway_protein example_pathways example_proteins example_membership))
     ''hsa99999'' = Inl UnknownPathwayError"
proof -
  from example_membership_returns obtain idx :: "(string, string) relation_index" where
    r: "populate_pathway_protein example_pathways example_proteins example_membership = Inr idx" ..
  from populate_pathway_protein_invariant[OF r] have
    b: "pathway_proteins idx ''hsa00030'' =
          unique (map fst (filter (\<lambda>e. snd e = ''hsa00030'')
            (membership_edges example_pathways example_proteins example_membership)))"
    by blast
  have c: "card (set (pathway_proteins idx ''hsa00030'')) = 2"
    unfolding b example_membership_edges by (simp add: set_unique)
  have k: "example_pathways ''hsa00030'' = Some ''hsa00030''"
    and u: "example_pathways ''hsa99999'' = None"
    by (simp_all add: example_pathways_def)
  note t = extract_pathway_subgraph_size[of example_pathways _ idx]
  from t[of "''hsa00030''" "''hsa00030''"] k c
  have x: "\<exists>gr. extract_pathway_subgraph example_pathways idx ''hsa00030'' = Inr gr \<and>
      card (nodes gr) = 3 \<and> card (edges gr) = 2"
    by auto
  from t[of "''hsa99999''" "''hsa00030''"] u
  have y: "extract_pathway_subgraph example_pathways idx ''hsa99999'' = Inl UnknownPathwayError"
    by blast
  from k u x y show ?thesis unfolding r by simp
qed

end
